theory Spec2Isabelle
  imports Complex_Main
begin

section \<open>Numbers, points and rings\<close>

text \<open>
  A TypeScript \<^verbatim>\<open>number\<close> is an IEEE-754 double. The sweep only adds, subtracts,
  multiplies, divides and compares coordinates, so a number is modelled as a finite
  value, a signed infinity (\<open>Inf True\<close> is \<open>+Infinity\<close>) or \<open>NaN\<close>, with the
  outcome the language gives to every combination of these. Finite values are the
  rationals they denote and arithmetic on them is exact: rounding and the sign of zero
  are not modelled (a zero divisor counts as \<open>+0\<close>). On the rings evaluated below all
  coordinates are small integers and every intermediate result is an integer, an
  infinity or \<open>NaN\<close>, where the exact model and the double arithmetic agree.
\<close>

datatype jsnum = Fin rat | Inf bool | NaN

fun js_neg :: "jsnum \<Rightarrow> jsnum" where
  "js_neg (Fin a) = Fin (- a)"
| "js_neg (Inf s) = Inf (\<not> s)"
| "js_neg NaN = NaN"

fun js_add :: "jsnum \<Rightarrow> jsnum \<Rightarrow> jsnum" where
  "js_add (Fin a) (Fin b) = Fin (a + b)"
| "js_add (Fin a) (Inf t) = Inf t"
| "js_add (Inf s) (Fin b) = Inf s"
| "js_add (Inf s) (Inf t) = (if s = t then Inf s else NaN)"
| "js_add NaN _ = NaN"
| "js_add _ NaN = NaN"

definition js_sub :: "jsnum \<Rightarrow> jsnum \<Rightarrow> jsnum" where
  "js_sub a b = js_add a (js_neg b)"

fun js_mul :: "jsnum \<Rightarrow> jsnum \<Rightarrow> jsnum" where
  "js_mul (Fin a) (Fin b) = Fin (a * b)"
| "js_mul (Fin a) (Inf t) = (if a = 0 then NaN else Inf (t = (0 < a)))"
| "js_mul (Inf s) (Fin b) = (if b = 0 then NaN else Inf (s = (0 < b)))"
| "js_mul (Inf s) (Inf t) = Inf (s = t)"
| "js_mul NaN _ = NaN"
| "js_mul _ NaN = NaN"

fun js_div :: "jsnum \<Rightarrow> jsnum \<Rightarrow> jsnum" where
  "js_div (Fin a) (Fin b) =
     (if b \<noteq> 0 then Fin (a / b) else if a = 0 then NaN else Inf (0 < a))"
| "js_div (Fin a) (Inf t) = Fin 0"
| "js_div (Inf s) (Fin b) = Inf (s = (0 \<le> b))"
| "js_div (Inf s) (Inf t) = NaN"
| "js_div NaN _ = NaN"
| "js_div _ NaN = NaN"

text \<open>The comparisons \<^verbatim>\<open><\<close>, \<^verbatim>\<open>===\<close> and \<^verbatim>\<open><=\<close>: every comparison with \<open>NaN\<close> is false.\<close>

fun js_lt :: "jsnum \<Rightarrow> jsnum \<Rightarrow> bool" where
  "js_lt (Fin a) (Fin b) = (a < b)"
| "js_lt (Fin a) (Inf t) = t"
| "js_lt (Inf s) (Fin b) = (\<not> s)"
| "js_lt (Inf s) (Inf t) = (\<not> s \<and> t)"
| "js_lt NaN _ = False"
| "js_lt _ NaN = False"

fun js_eq :: "jsnum \<Rightarrow> jsnum \<Rightarrow> bool" where
  "js_eq (Fin a) (Fin b) = (a = b)"
| "js_eq (Inf s) (Inf t) = (s = t)"
| "js_eq _ _ = False"

definition js_le :: "jsnum \<Rightarrow> jsnum \<Rightarrow> bool" where
  "js_le a b = (js_lt a b \<or> js_eq a b)"

text \<open>
  The remainder \<^verbatim>\<open>a % n\<close> on the non-negative integers used as edge indices and point
  counts: \<open>a % 0\<close> is \<open>NaN\<close>, which is \<open>None\<close> here and equal to no index.
\<close>

definition js_mod :: "nat \<Rightarrow> nat \<Rightarrow> nat option" where
  "js_mod a n = (if n = 0 then None else Some (a mod n))"

text \<open>
  Modelled from the spec: the classes \<^verbatim>\<open>Point\<close> and \<^verbatim>\<open>LineString\<close>, whose sources
  are not part of the files at hand. A point carries \<open>x\<close> and \<open>y\<close> (the optional \<open>z\<close>
  and \<open>m\<close> are never read by the sweep). A \<^verbatim>\<open>LineString\<close> is used only through its
  point array and \<^verbatim>\<open>numPoints()\<close>, the count of its points, so it is the list of its
  points.
\<close>

record Point =
  x :: jsnum
  y :: jsnum

type_synonym LineString = "Point list"

definition numPoints :: "LineString \<Rightarrow> nat" where
  "numPoints ring = length ring"

definition pt :: "int \<Rightarrow> int \<Rightarrow> Point" where
  "pt a b = \<lparr> x = Fin (of_int a), y = Fin (of_int b) \<rparr>"

section \<open>Errors\<close>

text \<open>
  \<^verbatim>\<open>SFException\<close> is the library's own exception; \<open>TypeError\<close> is what the
  language raises when a property of \<^verbatim>\<open>undefined\<close> is read.
\<close>

datatype error = SFException string | TypeError

section \<open>Segments and events\<close>

text \<open>
  Modelled from the spec: the classes \<^verbatim>\<open>Segment\<close> and \<^verbatim>\<open>Event\<close> and the enumeration
  \<^verbatim>\<open>EventType\<close>, whose sources are not part of the files at hand; the fields are the
  ones that \<^verbatim>\<open>SweepLine\<close> reads and writes. A segment has its edge and ring index, its
  left and right point, and the two references \<^verbatim>\<open>above\<close> and \<^verbatim>\<open>below\<close>, unset when it
  is made. An event has the edge and ring index, a point and a type.

  Segments are mutable objects that refer to each other through \<^verbatim>\<open>above\<close> and
  \<^verbatim>\<open>below\<close>. They live in a store, a list indexed by address; a reference is an
  address, \<^verbatim>\<open>undefined\<close> is \<open>None\<close>.
\<close>

type_synonym addr = nat

record Segment =
  edge :: nat
  ring :: nat
  leftPoint :: Point
  rightPoint :: Point
  above :: "addr option"
  below :: "addr option"

datatype EventType = Left | Right

record Event =
  ev_edge :: nat
  ev_ring :: nat
  ev_point :: Point
  ev_type :: EventType

section \<open>Geometry of the sweep line\<close>

definition yValueAtX :: "Segment \<Rightarrow> jsnum \<Rightarrow> jsnum" where
  "yValueAtX segment x0 =
     (let left = leftPoint segment;
          right = rightPoint segment;
          m = js_div (js_sub (y right) (y left)) (js_sub (x right) (x left));
          b = js_sub (y left) (js_mul m (x left))
      in js_add (js_mul m x0) b)"

definition xyOrder :: "Point \<Rightarrow> Point \<Rightarrow> int" where
  "xyOrder point1 point2 =
     (if js_lt (x point2) (x point1) then 1
      else if js_lt (x point1) (x point2) then - 1
      else if js_lt (y point2) (y point1) then 1
      else if js_lt (y point1) (y point2) then - 1
      else 0)"

definition isLeftPoints :: "Point \<Rightarrow> Point \<Rightarrow> Point \<Rightarrow> jsnum" where
  "isLeftPoints point0 point1 point2 =
     js_sub (js_mul (js_sub (x point1) (x point0)) (js_sub (y point2) (y point0)))
            (js_mul (js_sub (x point2) (x point0)) (js_sub (y point1) (y point0)))"

definition isLeft :: "Segment \<Rightarrow> Point \<Rightarrow> jsnum" where
  "isLeft segment point = isLeftPoints (leftPoint segment) (rightPoint segment) point"

subsection \<open>The segment comparator\<close>

text \<open>
  \<^verbatim>\<open>SegmentComparator.compare\<close>, with the comparator's field \<^verbatim>\<open>_x\<close> as the first
  argument (\<open>None\<close> while it is unset).
\<close>

definition compare :: "jsnum option \<Rightarrow> Segment \<Rightarrow> Segment \<Rightarrow> error + int" where
  "compare cx segment1 segment2 =
     (case cx of
        None \<Rightarrow> Inl (SFException ''X value not set'')
      | Some x0 \<Rightarrow>
          (let y1 = yValueAtX segment1 x0;
               y2 = yValueAtX segment2 x0
           in Inr (if js_lt y1 y2 then - 1
                   else if js_lt y2 y1 then 1
                   else if ring segment1 < ring segment2 then - 1
                   else if ring segment2 < ring segment1 then 1
                   else if edge segment1 < edge segment2 then - 1
                   else if edge segment2 < edge segment1 then 1
                   else 0)))"

subsection \<open>The intersection test\<close>

text \<open>
  \<^verbatim>\<open>SweepLine.intersect\<close> reads the sweep line's rings only. Reading
  \<^verbatim>\<open>this._rings[ring1]\<close> beyond the array gives \<^verbatim>\<open>undefined\<close>, and the call of
  \<^verbatim>\<open>numPoints\<close> on it raises.
\<close>

definition consecutive :: "LineString list \<Rightarrow> Segment \<Rightarrow> Segment \<Rightarrow> error + bool" where
  "consecutive rs segment1 segment2 =
     (let ring1 = ring segment1; ring2 = ring segment2
      in if ring1 = ring2 then
           (if ring1 < length rs then
              (let edge1 = edge segment1;
                   edge2 = edge segment2;
                   ringPoints = numPoints (rs ! ring1)
               in Inr (js_mod (edge1 + 1) ringPoints = Some edge2 \<or>
                       Some edge1 = js_mod (edge2 + 1) ringPoints))
            else Inl TypeError)
         else Inr False)"

definition intersect :: "LineString list \<Rightarrow> Segment option \<Rightarrow> Segment option \<Rightarrow> error + bool" where
  "intersect rs s1 s2 =
     (case (s1, s2) of
        (Some segment1, Some segment2) \<Rightarrow>
          (case consecutive rs segment1 segment2 of
             Inl e \<Rightarrow> Inl e
           | Inr c \<Rightarrow>
               if \<not> c then
                 (if js_le (js_mul (isLeft segment1 (leftPoint segment2))
                                   (isLeft segment1 (rightPoint segment2))) (Fin 0)
                  then Inr (js_le (js_mul (isLeft segment2 (leftPoint segment1))
                                          (isLeft segment2 (rightPoint segment1))) (Fin 0))
                  else Inr False)
               else Inr False)
      | _ \<Rightarrow> Inr False)"

section \<open>The collaborators of the sweep\<close>

text \<open>
  Modelled from the spec: the interfaces of the status structure
  (\<^verbatim>\<open>ExtendedRedBlackTree\<close>), of the \<^verbatim>\<open>EventQueue\<close> and of the point-in-ring tests of
  \<^verbatim>\<open>GeometryUtils\<close>, whose sources are not part of the files at hand. The sweep uses
  them through the operations it calls, so it is defined over any implementation of
  them: a tree with insert, find, successor, predecessor and a removal that reports
  whether it removed; an event queue that turns the ring copies into the sequence of
  events; two tests that answer with a boolean.

  The tree is constructed with the comparator bound to it, so each of its comparing
  operations reads the comparator's current \<^verbatim>\<open>_x\<close> and the segments it compares:
  both are arguments here, and an exception of the comparator may come out of them. A
  node is a handle of type \<open>'n\<close> whose \<^verbatim>\<open>value\<close> is the address of a segment.
\<close>

record ('t, 'n) Tree =
  t_empty :: "'t"
  t_insert :: "jsnum option \<Rightarrow> Segment list \<Rightarrow> addr \<Rightarrow> 't \<Rightarrow> error + 't"
  t_findNode :: "jsnum option \<Rightarrow> Segment list \<Rightarrow> addr \<Rightarrow> 't \<Rightarrow> error + 'n option"
  t_getSuccessor :: "'n \<Rightarrow> 't \<Rightarrow> 'n option"
  t_getPredecessor :: "'n \<Rightarrow> 't \<Rightarrow> 'n option"
  t_value :: "'n \<Rightarrow> 't \<Rightarrow> addr"
  t_remove :: "jsnum option \<Rightarrow> Segment list \<Rightarrow> addr \<Rightarrow> 't \<Rightarrow> error + bool \<times> 't"

record GeometryUtils =
  pointInPolygonRing :: "Point \<Rightarrow> LineString \<Rightarrow> bool"
  pointInPolygonRingPoints :: "Point \<Rightarrow> Point list \<Rightarrow> bool"

type_synonym EventQueue = "LineString list \<Rightarrow> Event list"

section \<open>The sweep line\<close>

text \<open>
  The fields of \<^verbatim>\<open>SweepLine\<close>: the rings, the comparator's \<^verbatim>\<open>_x\<close>, the tree and
  the map from ring and edge to segment; with them the store of the segment objects.
\<close>

record 't SweepLine =
  rings :: "LineString list"
  comparator_x :: "jsnum option"
  tree :: "'t"
  segments :: "nat \<Rightarrow> (nat \<Rightarrow> addr option) option"
  store :: "Segment list"

definition newSweepLine :: "('t, 'n) Tree \<Rightarrow> LineString list \<Rightarrow> 't SweepLine" where
  "newSweepLine T rs =
     \<lparr> rings = rs, comparator_x = None, tree = t_empty T,
       segments = (\<lambda>_. None), store = [] \<rparr>"

definition setAbove :: "Segment list \<Rightarrow> addr \<Rightarrow> addr option \<Rightarrow> Segment list" where
  "setAbove h a v = h[a := (h ! a)\<lparr> above := v \<rparr>]"

definition setBelow :: "Segment list \<Rightarrow> addr \<Rightarrow> addr option \<Rightarrow> Segment list" where
  "setBelow h a v = h[a := (h ! a)\<lparr> below := v \<rparr>]"

definition deref :: "Segment list \<Rightarrow> addr option \<Rightarrow> Segment option" where
  "deref h r = (case r of None \<Rightarrow> None | Some a \<Rightarrow> Some (h ! a))"

text \<open>
  \<^verbatim>\<open>createSegment\<close>: a ring or an edge beyond the arrays is \<^verbatim>\<open>undefined\<close>, and
  reading its points or its coordinates raises.
\<close>

definition createSegment :: "LineString list \<Rightarrow> Event \<Rightarrow> error + Segment" where
  "createSegment rs event =
     (let edgeNumber = ev_edge event; ringNumber = ev_ring event
      in if ringNumber < length rs then
           (let points = rs ! ringNumber
            in if edgeNumber < length points then
                 (let point1 = points ! edgeNumber;
                      point2 = points ! ((edgeNumber + 1) mod length points)
                  in Inr (if xyOrder point1 point2 < 0
                          then \<lparr> edge = edgeNumber, ring = ringNumber, leftPoint = point1,
                                 rightPoint = point2, above = None, below = None \<rparr>
                          else \<lparr> edge = edgeNumber, ring = ringNumber, leftPoint = point2,
                                 rightPoint = point1, above = None, below = None \<rparr>))
               else Inl TypeError)
         else Inl TypeError)"

text \<open>\<^verbatim>\<open>SweepLine.add\<close> returns the new state and the address of the added segment.\<close>

definition add :: "('t, 'n) Tree \<Rightarrow> 't SweepLine \<Rightarrow> Event \<Rightarrow> error + 't SweepLine \<times> addr" where
  "add T s event =
     (case createSegment (rings s) event of
        Inl e \<Rightarrow> Inl e
      | Inr segment \<Rightarrow>
          (let a = length (store s);
               h0 = store s @ [segment];
               cx = Some (x (ev_point event))
           in case t_insert T cx h0 a (tree s) of
                Inl e \<Rightarrow> Inl e
              | Inr t1 \<Rightarrow>
                  (case t_findNode T cx h0 a t1 of
                     Inl e \<Rightarrow> Inl e
                   | Inr None \<Rightarrow> Inl (SFException ''Segment not found'')
                   | Inr (Some current) \<Rightarrow>
                       (let h1 = (case t_getSuccessor T current t1 of
                                    None \<Rightarrow> h0
                                  | Some next \<Rightarrow>
                                      setBelow (setAbove h0 a (Some (t_value T next t1)))
                                        (t_value T next t1) (Some a));
                            h2 = (case t_getPredecessor T current t1 of
                                    None \<Rightarrow> h1
                                  | Some previous \<Rightarrow>
                                      setAbove (setBelow h1 a (Some (t_value T previous t1)))
                                        (t_value T previous t1) (Some a));
                            edgeMap = (case segments s (ring segment) of
                                         None \<Rightarrow> (\<lambda>_. None)
                                       | Some m \<Rightarrow> m)
                        in Inr (s\<lparr> comparator_x := cx, tree := t1,
                                   segments := (segments s)
                                     (ring segment \<mapsto> edgeMap(edge segment \<mapsto> a)),
                                   store := h2 \<rparr>, a)))))"

definition find_event :: "'t SweepLine \<Rightarrow> Event \<Rightarrow> error + addr" where
  "find_event s event =
     (case segments s (ev_ring event) of
        None \<Rightarrow> Inl (SFException ''Segment not found'')
      | Some m \<Rightarrow>
          (case m (ev_edge event) of
             None \<Rightarrow> Inl (SFException ''Segment not found'')
           | Some a \<Rightarrow> Inr a))"

text \<open>
  \<^verbatim>\<open>SweepLine.remove\<close>. \<open>unlink\<close> is its last block, run with the final value of
  \<^verbatim>\<open>removed\<close>.
\<close>

definition unlink :: "'t SweepLine \<Rightarrow> addr \<Rightarrow> bool \<Rightarrow> 't SweepLine" where
  "unlink s a removed =
     (if removed then
        (let segment = store s ! a;
             abv = above segment;
             blw = below segment;
             h1 = (case abv of None \<Rightarrow> store s | Some aa \<Rightarrow> setBelow (store s) aa blw);
             h2 = (case blw of None \<Rightarrow> h1 | Some ba \<Rightarrow> setAbove h1 ba abv)
         in s\<lparr> segments := (case segments s (ring segment) of
                               None \<Rightarrow> segments s
                             | Some m \<Rightarrow> (segments s)(ring segment \<mapsto> m(edge segment := None))),
               store := h2 \<rparr>)
      else s)"

definition remove_segment :: "('t, 'n) Tree \<Rightarrow> 't SweepLine \<Rightarrow> addr \<Rightarrow> error + 't SweepLine" where
  "remove_segment T s a =
     (case t_remove T (comparator_x s) (store s) a (tree s) of
        Inl e \<Rightarrow> Inl e
      | Inr (removed, t1) \<Rightarrow>
          if removed then
            (let cx = Some (x (leftPoint (store s ! a)))
             in case t_remove T cx (store s) a t1 of
                  Inl e \<Rightarrow> Inl e
                | Inr (removed', t2) \<Rightarrow>
                    Inr (unlink (s\<lparr> comparator_x := cx, tree := t2 \<rparr>) a removed'))
          else Inr (unlink (s\<lparr> tree := t1 \<rparr>) a removed))"

section \<open>The simplicity check\<close>

subsection \<open>Copying and validating the rings\<close>

text \<open>
  The copy of a ring, without its last point when that repeats the first: \<open>sameXY\<close> is
  the test \<^verbatim>\<open>first.x === last.x && first.y === last.y\<close>.
\<close>

definition sameXY :: "Point \<Rightarrow> Point \<Rightarrow> bool" where
  "sameXY first lastp = (js_eq (x first) (x lastp) \<and> js_eq (y first) (y lastp))"

definition ringCopyPoints :: "LineString \<Rightarrow> Point list" where
  "ringCopyPoints ring0 =
     (if 3 \<le> length ring0 then
        (let first = ring0 ! 0; lastp = ring0 ! (length ring0 - 1)
         in if sameXY first lastp then butlast ring0 else ring0)
      else ring0)"

text \<open>
  The inner loop over the earlier holes \<open>j = 1, ..., i - 1\<close>; its result is the new value
  of \<^verbatim>\<open>simple\<close>. An empty earlier hole has no first point: the test is then handed
  \<^verbatim>\<open>undefined\<close>, which is taken to raise.
\<close>

function holeLoop ::
  "GeometryUtils \<Rightarrow> LineString list \<Rightarrow> Point \<Rightarrow> Point list \<Rightarrow> nat \<Rightarrow> nat \<Rightarrow> error + bool" where
  "holeLoop G rs firstPoint copyPoints j i =
     (if j < i then
        (if j < length rs then
           (let holePoints = rs ! j
            in if pointInPolygonRingPoints G firstPoint holePoints then Inr False
               else (case holePoints of
                       [] \<Rightarrow> Inl TypeError
                     | p # _ \<Rightarrow>
                         if pointInPolygonRingPoints G p copyPoints then Inr False
                         else holeLoop G rs firstPoint copyPoints (j + 1) i))
         else Inl TypeError)
      else Inr True)"
  by pat_completeness auto
termination
  by (relation "measure (\<lambda>(G, rs, firstPoint, copyPoints, j, i). i - j)") auto

text \<open>
  The loop over the rings, from index \<open>i\<close> on, with the current value of \<^verbatim>\<open>simple\<close>
  and the copies made so far.
\<close>

function ringLoop ::
  "GeometryUtils \<Rightarrow> LineString list \<Rightarrow> nat \<Rightarrow> bool \<Rightarrow> LineString list
     \<Rightarrow> error + bool \<times> LineString list" where
  "ringLoop G rs i simple ringCopies =
     (if i < length rs then
        (let copyPoints = ringCopyPoints (rs ! i);
             ringCopies' = ringCopies @ [copyPoints]
         in if length copyPoints < 3 then Inr (False, ringCopies')
            else if 0 < i then
              (let firstPoint = copyPoints ! 0
               in if \<not> pointInPolygonRing G firstPoint (rs ! 0) then Inr (False, ringCopies')
                  else (case holeLoop G rs firstPoint copyPoints 1 i of
                          Inl e \<Rightarrow> Inl e
                        | Inr ok \<Rightarrow>
                            if \<not> ok then Inr (False, ringCopies')
                            else ringLoop G rs (i + 1) simple ringCopies'))
            else ringLoop G rs (i + 1) simple ringCopies')
      else Inr (simple, ringCopies))"
  by pat_completeness auto
termination
  by (relation "measure (\<lambda>(G, rs, i, simple, ringCopies). length rs - i)") auto

subsection \<open>Processing the events\<close>

text \<open>
  The loop over the events. Its result is the final sweep line with the final value of
  \<^verbatim>\<open>simple\<close>; an exception ends it with \<open>Inl\<close>.
\<close>

fun sweepEvents ::
  "('t, 'n) Tree \<Rightarrow> 't SweepLine \<Rightarrow> Event list \<Rightarrow> error + 't SweepLine \<times> bool" where
  "sweepEvents T s [] = Inr (s, True)"
| "sweepEvents T s (event # events) =
     (if ev_type event = Left then
        (case add T s event of
           Inl e \<Rightarrow> Inl e
         | Inr (s1, a) \<Rightarrow>
             (let segment = store s1 ! a
              in case intersect (rings s1) (Some segment) (deref (store s1) (below segment)) of
                   Inl e \<Rightarrow> Inl e
                 | Inr hit \<Rightarrow>
                     if hit then Inr (s1, False)
                     else (case intersect (rings s1) (Some segment)
                                  (deref (store s1) (above segment)) of
                             Inl e \<Rightarrow> Inl e
                           | Inr hit' \<Rightarrow>
                               if hit' then Inr (s1, False) else sweepEvents T s1 events)))
      else
        (case find_event s event of
           Inl e \<Rightarrow> Inl e
         | Inr a \<Rightarrow>
             (let segment = store s ! a
              in case intersect (rings s) (deref (store s) (above segment))
                        (deref (store s) (below segment)) of
                   Inl e \<Rightarrow> Inl e
                 | Inr hit \<Rightarrow>
                     if hit then Inr (s, False)
                     else (case remove_segment T s a of
                             Inl e \<Rightarrow> Inl e
                           | Inr s1 \<Rightarrow> sweepEvents T s1 events))))"

subsection \<open>The check\<close>

text \<open>
  The sweep over the copies of valid rings: the event queue and the sweep line are made
  from the copies, and the events are processed in the order of the queue.
\<close>

definition sweepRun ::
  "('t, 'n) Tree \<Rightarrow> EventQueue \<Rightarrow> LineString list \<Rightarrow> error + 't SweepLine \<times> bool" where
  "sweepRun T Q ringCopies = sweepEvents T (newSweepLine T ringCopies) (Q ringCopies)"

definition simplePolygonLineStrings ::
  "('t, 'n) Tree \<Rightarrow> EventQueue \<Rightarrow> GeometryUtils \<Rightarrow> LineString list \<Rightarrow> error + bool" where
  "simplePolygonLineStrings T Q G rs =
     (case ringLoop G rs 0 (length rs \<noteq> 0) [] of
        Inl e \<Rightarrow> Inl e
      | Inr (simple, ringCopies) \<Rightarrow>
          if simple then
            (case sweepRun T Q ringCopies of
               Inl e \<Rightarrow> Inl e
             | Inr (s, simple') \<Rightarrow> Inr simple')
          else Inr simple)"

definition simplePolygonRingPoints ::
  "('t, 'n) Tree \<Rightarrow> EventQueue \<Rightarrow> GeometryUtils \<Rightarrow> Point list list \<Rightarrow> error + bool" where
  "simplePolygonRingPoints T Q G pointRings = simplePolygonLineStrings T Q G pointRings"

section \<open>The status structure and the event queue of the specification\<close>

text \<open>
  Modelled from the spec: the status structure \<^verbatim>\<open>ExtendedRedBlackTree\<close>, whose source
  is not part of the files at hand. The specification describes an ordered structure
  keyed by the comparator with insert, find, predecessor, successor and removal by
  value that reports whether it removed. It is the list of the stored segments from
  below to above; a node is a position in it. An insertion goes before the first
  stored segment that the new one compares below; a search walks up the order and
  stops at the segment that compares equal, or reports absence at the first stored
  segment that the sought one compares below.
\<close>

fun listInsert ::
  "jsnum option \<Rightarrow> Segment list \<Rightarrow> addr \<Rightarrow> addr list \<Rightarrow> error + addr list" where
  "listInsert cx h a [] = Inr [a]"
| "listInsert cx h a (b # bs) =
     (case compare cx (h ! a) (h ! b) of
        Inl e \<Rightarrow> Inl e
      | Inr c \<Rightarrow>
          if c < 0 then Inr (a # b # bs)
          else (case listInsert cx h a bs of
                  Inl e \<Rightarrow> Inl e
                | Inr bs' \<Rightarrow> Inr (b # bs')))"

fun listFindNode ::
  "jsnum option \<Rightarrow> Segment list \<Rightarrow> addr \<Rightarrow> addr list \<Rightarrow> error + nat option" where
  "listFindNode cx h a [] = Inr None"
| "listFindNode cx h a (b # bs) =
     (case compare cx (h ! a) (h ! b) of
        Inl e \<Rightarrow> Inl e
      | Inr c \<Rightarrow>
          if c = 0 then Inr (Some 0)
          else if c < 0 then Inr None
          else (case listFindNode cx h a bs of
                  Inl e \<Rightarrow> Inl e
                | Inr None \<Rightarrow> Inr None
                | Inr (Some k) \<Rightarrow> Inr (Some (Suc k))))"

definition listRemove ::
  "jsnum option \<Rightarrow> Segment list \<Rightarrow> addr \<Rightarrow> addr list \<Rightarrow> error + bool \<times> addr list" where
  "listRemove cx h a t =
     (case listFindNode cx h a t of
        Inl e \<Rightarrow> Inl e
      | Inr None \<Rightarrow> Inr (False, t)
      | Inr (Some k) \<Rightarrow> Inr (True, take k t @ drop (Suc k) t))"

definition ListTree :: "(addr list, nat) Tree" where
  "ListTree =
     \<lparr> t_empty = [],
       t_insert = listInsert,
       t_findNode = listFindNode,
       t_getSuccessor = (\<lambda>k t. if Suc k < length t then Some (Suc k) else None),
       t_getPredecessor = (\<lambda>k t. if 0 < k then Some (k - 1) else None),
       t_value = (\<lambda>k t. t ! k),
       t_remove = listRemove \<rparr>"

text \<open>
  Modelled from the spec: the \<^verbatim>\<open>EventQueue\<close>, whose source is not part of the files
  at hand. Every edge of every ring gives a \<open>Left\<close> event at the smaller of its end
  points in the XY order and a \<open>Right\<close> event at the other; the events are sorted by the
  XY order of their points. The specification leaves the order of events at equal
  points open: here the sort is stable, so they keep the order in which they were
  made, ring by ring, edge by edge, \<open>Left\<close> before \<open>Right\<close>.
\<close>

definition edgeEvents :: "nat \<Rightarrow> Point list \<Rightarrow> nat \<Rightarrow> Event list" where
  "edgeEvents r points e =
     (let point1 = points ! e;
          point2 = points ! ((e + 1) mod length points)
      in if xyOrder point1 point2 < 0
         then [\<lparr> ev_edge = e, ev_ring = r, ev_point = point1, ev_type = Left \<rparr>,
               \<lparr> ev_edge = e, ev_ring = r, ev_point = point2, ev_type = Right \<rparr>]
         else [\<lparr> ev_edge = e, ev_ring = r, ev_point = point2, ev_type = Left \<rparr>,
               \<lparr> ev_edge = e, ev_ring = r, ev_point = point1, ev_type = Right \<rparr>])"

fun insertEvent :: "Event \<Rightarrow> Event list \<Rightarrow> Event list" where
  "insertEvent e [] = [e]"
| "insertEvent e (f # fs) =
     (if xyOrder (ev_point e) (ev_point f) < 0 then e # f # fs else f # insertEvent e fs)"

definition SortedEventQueue :: EventQueue where
  "SortedEventQueue rs =
     foldl (\<lambda>sorted e. insertEvent e sorted) []
       (concat (map (\<lambda>r. concat (map (edgeEvents r (rs ! r)) [0 ..< length (rs ! r)]))
                    [0 ..< length rs]))"

section \<open>Recording the structural operations of the tree\<close>

text \<open>
  To speak about the comparator's \<^verbatim>\<open>_x\<close> at the moment of each insertion and removal,
  any tree can be wrapped so that it keeps, beside its own state, the list of the
  insertions and removals made so far, each with the \<^verbatim>\<open>_x\<close> it ran under and the
  segment it was given. The wrapped tree answers exactly as the tree inside it.
\<close>

datatype TreeCall = InsertCall | RemoveCall

type_synonym CallLog = "(TreeCall \<times> jsnum option \<times> addr) list"

definition Logged :: "('t, 'n) Tree \<Rightarrow> ('t \<times> CallLog, 'n) Tree" where
  "Logged T =
     \<lparr> t_empty = (t_empty T, []),
       t_insert = (\<lambda>cx h a tl.
          case t_insert T cx h a (fst tl) of
            Inl e \<Rightarrow> Inl e
          | Inr t' \<Rightarrow> Inr (t', snd tl @ [(InsertCall, cx, a)])),
       t_findNode = (\<lambda>cx h a tl. t_findNode T cx h a (fst tl)),
       t_getSuccessor = (\<lambda>n tl. t_getSuccessor T n (fst tl)),
       t_getPredecessor = (\<lambda>n tl. t_getPredecessor T n (fst tl)),
       t_value = (\<lambda>n tl. t_value T n (fst tl)),
       t_remove = (\<lambda>cx h a tl.
          case t_remove T cx h a (fst tl) of
            Inl e \<Rightarrow> Inl e
          | Inr (removed, t') \<Rightarrow> Inr (removed, t', snd tl @ [(RemoveCall, cx, a)])) \<rparr>"

definition calls :: "('t \<times> CallLog) SweepLine \<Rightarrow> CallLog" where
  "calls s = snd (tree s)"

text \<open>
  A stand-in for the point-in-ring tests where a closed example needs one: the first
  test answers \<open>inRing\<close> and the second \<open>inHole\<close>, whatever the point and the ring.
\<close>

definition constGeometryUtils :: "bool \<Rightarrow> bool \<Rightarrow> GeometryUtils" where
  "constGeometryUtils inRing inHole =
     \<lparr> pointInPolygonRing = (\<lambda>p r. inRing), pointInPolygonRingPoints = (\<lambda>p r. inHole) \<rparr>"

section \<open>Exceptions raised inside the tree\<close>

text \<open>
  One round of the loop over the events: the sweep line after the event, with \<open>True\<close>
  when the loop goes on and \<open>False\<close> when it stops at an intersection; or the
  exception that the round raises.
\<close>

definition processEvent ::
  "('t, 'n) Tree \<Rightarrow> 't SweepLine \<Rightarrow> Event \<Rightarrow> error + 't SweepLine \<times> bool" where
  "processEvent T s event =
     (if ev_type event = Left then
        (case add T s event of
           Inl e \<Rightarrow> Inl e
         | Inr (s1, a) \<Rightarrow>
             (case intersect (rings s1) (Some (store s1 ! a))
                     (deref (store s1) (below (store s1 ! a))) of
                Inl e \<Rightarrow> Inl e
              | Inr hit \<Rightarrow>
                  if hit then Inr (s1, False)
                  else (case intersect (rings s1) (Some (store s1 ! a))
                               (deref (store s1) (above (store s1 ! a))) of
                          Inl e \<Rightarrow> Inl e
                        | Inr hit' \<Rightarrow> Inr (s1, \<not> hit'))))
      else
        (case find_event s event of
           Inl e \<Rightarrow> Inl e
         | Inr a \<Rightarrow>
             (case intersect (rings s) (deref (store s) (above (store s ! a)))
                     (deref (store s) (below (store s ! a))) of
                Inl e \<Rightarrow> Inl e
              | Inr hit \<Rightarrow>
                  if hit then Inr (s, False)
                  else (case remove_segment T s a of
                          Inl e \<Rightarrow> Inl e
                        | Inr s1 \<Rightarrow> Inr (s1, True)))))"

text \<open>
  \<open>treeRaises T s event e\<close>: while the sweep line \<open>s\<close> processes \<open>event\<close>, an operation of
  the tree raises \<open>e\<close>. For a \<open>Left\<close> event that is the insertion or the search of
  \<^verbatim>\<open>add\<close>; for a \<open>Right\<close> event it is the first removal attempt of \<^verbatim>\<open>remove\<close>, or
  the second after a first that reported a removal. These are the calls that reach the
  comparator.
\<close>

definition treeRaises :: "('t, 'n) Tree \<Rightarrow> 't SweepLine \<Rightarrow> Event \<Rightarrow> error \<Rightarrow> bool" where
  "treeRaises T s event e =
     (if ev_type event = Left then
        (case createSegment (rings s) event of
           Inl _ \<Rightarrow> False
         | Inr segment \<Rightarrow>
             (let a = length (store s);
                  h0 = store s @ [segment];
                  cx = Some (x (ev_point event))
              in case t_insert T cx h0 a (tree s) of
                   Inl e' \<Rightarrow> e' = e
                 | Inr t1 \<Rightarrow> t_findNode T cx h0 a t1 = Inl e))
      else
        (case find_event s event of
           Inl _ \<Rightarrow> False
         | Inr a \<Rightarrow>
             intersect (rings s) (deref (store s) (above (store s ! a)))
               (deref (store s) (below (store s ! a))) = Inr False
             \<and> (case t_remove T (comparator_x s) (store s) a (tree s) of
                   Inl e' \<Rightarrow> e' = e
                 | Inr (removed, t1) \<Rightarrow>
                     removed
                     \<and> t_remove T (Some (x (leftPoint (store s ! a)))) (store s) a t1 = Inl e)))"

text \<open>
  A tree whose comparator never has its position set: each of its comparing operations
  runs as that of the tree inside, with \<^verbatim>\<open>_x\<close> unset. It stands for a sweep line that
  breaks the rule of setting the position before it uses the tree.
\<close>

definition Unpositioned :: "('t, 'n) Tree \<Rightarrow> ('t, 'n) Tree" where
  "Unpositioned T =
     T\<lparr> t_insert := (\<lambda>cx. t_insert T None),
        t_findNode := (\<lambda>cx. t_findNode T None),
        t_remove := (\<lambda>cx. t_remove T None) \<rparr>"

text \<open>
  What the loop over the rings checks for ring \<open>i\<close> on its own: too few points after the
  copy, or, for a hole, a first point that the test does not place in ring \<open>0\<close>.
\<close>

definition ringRejected :: "GeometryUtils \<Rightarrow> LineString list \<Rightarrow> nat \<Rightarrow> bool" where
  "ringRejected G rs i =
     (length (ringCopyPoints (rs ! i)) < 3
      \<or> (0 < i \<and> \<not> pointInPolygonRing G (ringCopyPoints (rs ! i) ! 0) (rs ! 0)))"

section \<open>Auxiliary facts\<close>

declare holeLoop.simps [simp del] ringLoop.simps [simp del]

subsection \<open>One round of each loop\<close>

lemma length_ringCopyPoints_le: "length (ringCopyPoints r) \<le> length r"
  by (simp add: ringCopyPoints_def Let_def)

lemma holeLoop_done: "\<not> j < i \<Longrightarrow> holeLoop G rs fp cp j i = Inr True"
  by (subst holeLoop.simps) simp

lemma holeLoop_step:
  "j < i \<Longrightarrow> j < length rs \<Longrightarrow> rs ! j = p # ps \<Longrightarrow>
   holeLoop G rs fp cp j i =
     (if pointInPolygonRingPoints G fp (rs ! j) \<or> pointInPolygonRingPoints G p cp
      then Inr False else holeLoop G rs fp cp (j + 1) i)"
  by (subst holeLoop.simps) (simp add: Let_def)

lemma ringLoop_done:
  "\<not> i < length rs \<Longrightarrow> ringLoop G rs i simple copies = Inr (simple, copies)"
  by (subst ringLoop.simps) simp

lemma ringLoop_short:
  "i < length rs \<Longrightarrow> length (ringCopyPoints (rs ! i)) < 3 \<Longrightarrow>
   ringLoop G rs i simple copies = Inr (False, copies @ [ringCopyPoints (rs ! i)])"
  by (subst ringLoop.simps) (simp add: Let_def)

lemma ringLoop_exterior:
  "0 < length rs \<Longrightarrow> \<not> length (ringCopyPoints (rs ! 0)) < 3 \<Longrightarrow>
   ringLoop G rs 0 simple copies = ringLoop G rs 1 simple (copies @ [ringCopyPoints (rs ! 0)])"
  by (subst ringLoop.simps) (simp add: Let_def)

lemma ringLoop_outside:
  "i < length rs \<Longrightarrow> \<not> length (ringCopyPoints (rs ! i)) < 3 \<Longrightarrow> 0 < i \<Longrightarrow>
   \<not> pointInPolygonRing G (ringCopyPoints (rs ! i) ! 0) (rs ! 0) \<Longrightarrow>
   ringLoop G rs i simple copies = Inr (False, copies @ [ringCopyPoints (rs ! i)])"
  by (subst ringLoop.simps) (simp add: Let_def)

lemma ringLoop_hole:
  "i < length rs \<Longrightarrow> \<not> length (ringCopyPoints (rs ! i)) < 3 \<Longrightarrow> 0 < i \<Longrightarrow>
   pointInPolygonRing G (ringCopyPoints (rs ! i) ! 0) (rs ! 0) \<Longrightarrow>
   holeLoop G rs (ringCopyPoints (rs ! i) ! 0) (ringCopyPoints (rs ! i)) 1 i = Inr ok \<Longrightarrow>
   ringLoop G rs i simple copies =
     (if ok then ringLoop G rs (i + 1) simple (copies @ [ringCopyPoints (rs ! i)])
      else Inr (False, copies @ [ringCopyPoints (rs ! i)]))"
  by (subst ringLoop.simps) (simp add: Let_def)

subsection \<open>Rings that were accepted so far\<close>

text \<open>
  The inner loop reads the first point of the earlier holes. Those holes passed the
  length check, so the loop returns a boolean.
\<close>

lemma holeLoop_returns:
  "0 < j \<Longrightarrow> i \<le> length rs \<Longrightarrow> (\<And>k. 0 < k \<Longrightarrow> k < i \<Longrightarrow> rs ! k \<noteq> [])
     \<Longrightarrow> \<exists>b. holeLoop G rs fp cp j i = Inr b"
proof (induction G rs fp cp j i rule: holeLoop.induct)
  case (1 G rs fp cp j i)
  show ?case
  proof (cases "j < i")
    case False
    then have "holeLoop G rs fp cp j i = Inr True" by (rule holeLoop_done)
    then show ?thesis ..
  next
    case True
    with 1 have jl: "j < length rs" and ne: "rs ! j \<noteq> []" by auto
    then obtain p ps where rj: "rs ! j = p # ps" by (cases "rs ! j") auto
    note step = holeLoop_step[OF True jl rj, of G fp cp]
    show ?thesis
    proof (cases "pointInPolygonRingPoints G fp (rs ! j) \<or> pointInPolygonRingPoints G p cp")
      case True
      then show ?thesis using step by auto
    next
      case False
      have "\<exists>b. holeLoop G rs fp cp (j + 1) i = Inr b"
      proof (rule "1.IH"[OF True jl refl _ rj])
        show "\<not> pointInPolygonRingPoints G fp (rs ! j)" using False by simp
        show "\<not> pointInPolygonRingPoints G p cp" using False by simp
        show "0 < j + 1" by simp
        show "i \<le> length rs" by (rule "1.prems")
        show "\<And>k. 0 < k \<Longrightarrow> k < i \<Longrightarrow> rs ! k \<noteq> []" using "1.prems"(3) by blast
      qed
      then show ?thesis using False step by simp
    qed
  qed
qed

text \<open>
  Started at or before a ring that it rejects, with every earlier ring long enough, the
  loop over the rings ends with \<^verbatim>\<open>simple = false\<close>: at that ring or at an earlier one.
\<close>

lemma ringLoop_rejects:
  "k \<le> i \<Longrightarrow> i < length rs \<Longrightarrow> ringRejected G rs i
     \<Longrightarrow> (\<And>j. j < k \<Longrightarrow> 3 \<le> length (rs ! j))
     \<Longrightarrow> \<exists>c. ringLoop G rs k simple copies = Inr (False, c)"
proof (induction "i - k" arbitrary: k copies)
  case 0
  then have [simp]: "k = i" by simp
  from 0 show ?case
    by (cases "length (ringCopyPoints (rs ! i)) < 3")
       (auto simp: ringRejected_def ringLoop_short ringLoop_outside)
next
  case (Suc d)
  then have kl: "k < length rs" and ki: "k + 1 \<le> i" and d: "d = i - (k + 1)" by auto
  show ?case
  proof (cases "length (ringCopyPoints (rs ! k)) < 3")
    case True
    then show ?thesis using kl by (simp add: ringLoop_short)
  next
    case long: False
    have len_k: "3 \<le> length (rs ! k)"
      using long length_ringCopyPoints_le[of "rs ! k"] by simp
    have inv: "\<And>j. j < k + 1 \<Longrightarrow> 3 \<le> length (rs ! j)"
      using Suc.prems(4) len_k by (metis Suc_eq_plus1 less_Suc_eq)
    have later: "\<exists>c. ringLoop G rs (k + 1) simple (copies @ [ringCopyPoints (rs ! k)])
                      = Inr (False, c)"
      by (rule Suc.hyps(1)[OF d ki Suc.prems(2,3) inv])
    show ?thesis
    proof (cases "0 < k")
      case False
      then show ?thesis
        using later kl long ringLoop_exterior[of rs G simple copies] by simp
    next
      case pos: True
      show ?thesis
      proof (cases "pointInPolygonRing G (ringCopyPoints (rs ! k) ! 0) (rs ! 0)")
        case False
        then show ?thesis using kl long pos by (simp add: ringLoop_outside)
      next
        case inside: True
        have "\<exists>b. holeLoop G rs (ringCopyPoints (rs ! k) ! 0) (ringCopyPoints (rs ! k)) 1 k
                   = Inr b"
        proof (rule holeLoop_returns)
          show "0 < (1::nat)" by simp
          show "k \<le> length rs" using kl by simp
          fix j assume "0 < j" "j < k"
          then have "3 \<le> length (rs ! j)" using Suc.prems(4) by simp
          then show "rs ! j \<noteq> []" by auto
        qed
        then obtain b where
          hb: "holeLoop G rs (ringCopyPoints (rs ! k) ! 0) (ringCopyPoints (rs ! k)) 1 k = Inr b" ..
        show ?thesis
          using later ringLoop_hole[OF kl long pos inside hb, of simple copies]
          by (cases b) auto
      qed
    qed
  qed
qed

lemma simple_rejected:
  assumes "i < length rs" and "ringRejected G rs i"
  shows "simplePolygonLineStrings T Q G rs = Inr False"
proof -
  have "\<exists>c. ringLoop G rs 0 (length rs \<noteq> 0) [] = Inr (False, c)"
    by (rule ringLoop_rejects[OF _ assms]) simp_all
  then show ?thesis by (auto simp: simplePolygonLineStrings_def)
qed

subsection \<open>A single ring\<close>

lemma simple_single:
  "simplePolygonLineStrings T Q G [R] =
     (if length (ringCopyPoints R) < 3 then Inr False
      else (case sweepRun T Q [ringCopyPoints R] of
              Inl e \<Rightarrow> Inl e
            | Inr (s, simple') \<Rightarrow> Inr simple'))"
proof (cases "length (ringCopyPoints R) < 3")
  case True
  then show ?thesis
    using ringLoop_short[of 0 "[R]" G True "[]"] by (simp add: simplePolygonLineStrings_def)
next
  case False
  then have "ringLoop G [R] 0 True [] = Inr (True, [ringCopyPoints R])"
    using ringLoop_exterior[of "[R]" G True "[]"]
      ringLoop_done[of 1 "[R]" G True "[ringCopyPoints R]"]
    by simp
  with False show ?thesis by (simp add: simplePolygonLineStrings_def)
qed

lemma ringCopyPoints_open:
  "length R < 3 \<or> \<not> sameXY (hd R) (last R) \<Longrightarrow> ringCopyPoints R = R"
  by (cases R) (auto simp: ringCopyPoints_def Let_def hd_conv_nth last_conv_nth)

lemma ringCopyPoints_closed:
  "2 \<le> length R \<Longrightarrow> sameXY (hd R) (hd R) \<Longrightarrow> ringCopyPoints (R @ [hd R]) = R"
  by (cases R) (auto simp: ringCopyPoints_def Let_def nth_append)

subsection \<open>The recorded calls\<close>

lemma Logged_sel [simp]:
  "t_insert (Logged T) cx h a tc =
     (case t_insert T cx h a (fst tc) of
        Inl e \<Rightarrow> Inl e
      | Inr t' \<Rightarrow> Inr (t', snd tc @ [(InsertCall, cx, a)]))"
  "t_remove (Logged T) cx h a tc =
     (case t_remove T cx h a (fst tc) of
        Inl e \<Rightarrow> Inl e
      | Inr (removed, t') \<Rightarrow> Inr (removed, t', snd tc @ [(RemoveCall, cx, a)]))"
  "t_empty (Logged T) = (t_empty T, [])"
  by (simp_all add: Logged_def)

lemma unlink_keeps [simp]:
  "tree (unlink s a removed) = tree s"
  "comparator_x (unlink s a removed) = comparator_x s"
  by (simp_all add: unlink_def Let_def)

lemma add_logged:
  "add (Logged T) s ev = Inr (s', a) \<Longrightarrow>
   comparator_x s' = Some (x (ev_point ev))
   \<and> calls s' = calls s @ [(InsertCall, Some (x (ev_point ev)), a)]"
  by (auto simp: add_def calls_def Let_def split: sum.splits option.splits)

lemma remove_logged:
  "remove_segment (Logged T) s a = Inr s' \<Longrightarrow>
   (comparator_x s' = comparator_x s
      \<and> calls s' = calls s @ [(RemoveCall, comparator_x s, a)])
   \<or> (comparator_x s' = Some (x (leftPoint (store s ! a)))
      \<and> calls s' = calls s @ [(RemoveCall, comparator_x s, a),
                               (RemoveCall, Some (x (leftPoint (store s ! a))), a)])"
  by (auto simp: remove_segment_def calls_def Let_def split: sum.splits prod.splits if_splits)

text \<open>
  Whatever the tree, \<^verbatim>\<open>remove\<close> changes a segment or the map of segments only when the
  tree has reported the removal of the same segment twice in a row.
\<close>

lemma remove_changes_twice_removed:
  assumes "remove_segment T s a = Inr s'"
    and "store s' \<noteq> store s \<or> segments s' \<noteq> segments s"
  shows "\<exists>t1 t2. t_remove T (comparator_x s) (store s) a (tree s) = Inr (True, t1)
           \<and> t_remove T (Some (x (leftPoint (store s ! a)))) (store s) a t1 = Inr (True, t2)"
  using assms
  by (auto simp: remove_segment_def unlink_def Let_def
           split: sum.splits prod.splits if_splits)

lemma find_event_registered:
  "find_event s ev = Inr a \<Longrightarrow> \<exists>m. segments s (ev_ring ev) = Some m"
  by (auto simp: find_event_def split: option.splits)

text \<open>
  While the map of segments is empty the comparator may be unset; a \<open>Right\<close> event gets
  past \<^verbatim>\<open>find\<close> only when the map has an entry, and the map gets its entries from
  \<^verbatim>\<open>add\<close>, which sets the comparator. So every recorded call of a run saw it set.
\<close>

lemma sweep_logged_x_set:
  "sweepEvents (Logged T) s evs = Inr (s', b)
   \<Longrightarrow> \<forall>c \<in> set (calls s). fst (snd c) \<noteq> None
   \<Longrightarrow> comparator_x s = None \<longrightarrow> (\<forall>r. segments s r = None)
   \<Longrightarrow> \<forall>c \<in> set (calls s'). fst (snd c) \<noteq> None"
proof (induction evs arbitrary: s)
  case Nil
  then show ?case by simp
next
  case (Cons ev evs)
  show ?case
  proof (cases "ev_type ev = Left")
    case True
    with Cons.prems(1) obtain s1 a where ad: "add (Logged T) s ev = Inr (s1, a)"
      by (auto split: sum.splits)
    from add_logged[OF ad] have x1: "comparator_x s1 \<noteq> None"
      and c1: "\<forall>c \<in> set (calls s1). fst (snd c) \<noteq> None"
      using Cons.prems(2) by auto
    from Cons.prems(1) True ad
    have "(s', b) = (s1, False) \<or> sweepEvents (Logged T) s1 evs = Inr (s', b)"
      by (auto simp: Let_def split: sum.splits if_splits)
    then show ?thesis
    proof
      assume "(s', b) = (s1, False)"
      then show ?thesis using c1 by simp
    next
      assume "sweepEvents (Logged T) s1 evs = Inr (s', b)"
      from Cons.IH[OF this c1] x1 show ?thesis by simp
    qed
  next
    case False
    with Cons.prems(1) obtain a where fe: "find_event s ev = Inr a"
      by (auto split: sum.splits)
    from find_event_registered[OF fe] Cons.prems(3) have xs: "comparator_x s \<noteq> None"
      by (cases "comparator_x s") auto
    from Cons.prems(1) False fe
    have "(s', b) = (s, False)
          \<or> (\<exists>s1. remove_segment (Logged T) s a = Inr s1
                  \<and> sweepEvents (Logged T) s1 evs = Inr (s', b))"
      by (auto simp: Let_def split: sum.splits if_splits)
    then show ?thesis
    proof
      assume "(s', b) = (s, False)"
      then show ?thesis using Cons.prems(2) by simp
    next
      assume "\<exists>s1. remove_segment (Logged T) s a = Inr s1
                   \<and> sweepEvents (Logged T) s1 evs = Inr (s', b)"
      then obtain s1 where rm: "remove_segment (Logged T) s a = Inr s1"
        and sw: "sweepEvents (Logged T) s1 evs = Inr (s', b)" by blast
      from remove_logged[OF rm] xs Cons.prems(2)
      have x1: "comparator_x s1 \<noteq> None"
        and c1: "\<forall>c \<in> set (calls s1). fst (snd c) \<noteq> None"
        by force+
      from Cons.IH[OF sw c1] x1 show ?thesis by simp
    qed
  qed
qed

subsection \<open>Exceptions in the loop over the events\<close>

lemma sweepEvents_step:
  "sweepEvents T s (ev # evs) =
     (case processEvent T s ev of
        Inl e \<Rightarrow> Inl e
      | Inr (s1, go) \<Rightarrow> if go then sweepEvents T s1 evs else Inr (s1, False))"
proof (cases "ev_type ev = Left")
  case True
  show ?thesis
  proof (cases "add T s ev")
    case (Inl e)
    with True show ?thesis by (simp add: processEvent_def)
  next
    case (Inr r)
    obtain s1 a where r: "r = (s1, a)" by (cases r)
    show ?thesis
    proof (cases "intersect (rings s1) (Some (store s1 ! a))
                    (deref (store s1) (below (store s1 ! a)))")
      case (Inl e)
      with True Inr r show ?thesis by (simp add: processEvent_def)
    next
      case hit: (Inr hit)
      show ?thesis
      proof (cases hit)
        case True
        with \<open>ev_type ev = Left\<close> Inr r hit show ?thesis by (simp add: processEvent_def)
      next
        case False
        with \<open>ev_type ev = Left\<close> Inr r hit show ?thesis
          by (cases "intersect (rings s1) (Some (store s1 ! a))
                       (deref (store s1) (above (store s1 ! a)))")
             (simp_all add: processEvent_def)
      qed
    qed
  qed
next
  case False
  show ?thesis
  proof (cases "find_event s ev")
    case (Inl e)
    with False show ?thesis by (simp add: processEvent_def)
  next
    case (Inr a)
    show ?thesis
    proof (cases "intersect (rings s) (deref (store s) (above (store s ! a)))
                    (deref (store s) (below (store s ! a)))")
      case (Inl e)
      with False Inr show ?thesis by (simp add: processEvent_def)
    next
      case hit: (Inr hit)
      with False Inr show ?thesis
        by (cases "remove_segment T s a") (simp_all add: processEvent_def)
    qed
  qed
qed

lemma sweepEvents_append:
  "sweepEvents T s evs1 = Inr (s1, True) \<Longrightarrow>
   sweepEvents T s (evs1 @ evs2) = sweepEvents T s1 evs2"
proof (induction evs1 arbitrary: s)
  case Nil
  then show ?case by simp
next
  case (Cons ev evs1)
  show ?case
  proof (cases "processEvent T s ev")
    case (Inl e)
    with Cons.prems show ?thesis by (simp only: sweepEvents_step sum.case) simp
  next
    case (Inr r)
    obtain s' go where r: "r = (s', go)" by (cases r)
    show ?thesis
    proof (cases go)
      case False
      with Cons.prems Inr r show ?thesis
        by (simp only: sweepEvents_step sum.case prod.case if_False) simp
    next
      case True
      with Cons.prems Inr r have "sweepEvents T s' evs1 = Inr (s1, True)"
        by (simp only: sweepEvents_step sum.case prod.case if_True)
      from Cons.IH[OF this] Inr r True show ?thesis
        by (simp only: append_Cons sweepEvents_step sum.case prod.case if_True)
    qed
  qed
qed

lemma treeRaises_add:
  assumes "ev_type ev = Left" and "treeRaises T s ev e"
  shows "add T s ev = Inl e"
proof -
  from assms obtain segment where cs: "createSegment (rings s) ev = Inr segment"
    and ins: "case t_insert T (Some (x (ev_point ev))) (store s @ [segment])
                     (length (store s)) (tree s) of
                Inl e' \<Rightarrow> e' = e
              | Inr t1 \<Rightarrow>
                  t_findNode T (Some (x (ev_point ev))) (store s @ [segment])
                    (length (store s)) t1 = Inl e"
    by (cases "createSegment (rings s) ev") (simp_all add: treeRaises_def Let_def)
  show ?thesis
  proof (cases "t_insert T (Some (x (ev_point ev))) (store s @ [segment])
                  (length (store s)) (tree s)")
    case (Inl e')
    with ins cs show ?thesis by (simp add: add_def Let_def)
  next
    case (Inr t1)
    with ins cs show ?thesis by (simp add: add_def Let_def)
  qed
qed

lemma treeRaises_remove:
  assumes "ev_type ev \<noteq> Left" and "treeRaises T s ev e"
  shows "\<exists>a. find_event s ev = Inr a
     \<and> intersect (rings s) (deref (store s) (above (store s ! a)))
          (deref (store s) (below (store s ! a))) = Inr False
     \<and> remove_segment T s a = Inl e"
proof -
  from assms obtain a where fe: "find_event s ev = Inr a"
    and nohit: "intersect (rings s) (deref (store s) (above (store s ! a)))
                  (deref (store s) (below (store s ! a))) = Inr False"
    and rm: "case t_remove T (comparator_x s) (store s) a (tree s) of
               Inl e' \<Rightarrow> e' = e
             | Inr (removed, t1) \<Rightarrow>
                 removed
                 \<and> t_remove T (Some (x (leftPoint (store s ! a)))) (store s) a t1 = Inl e"
    by (cases "find_event s ev") (simp_all add: treeRaises_def)
  from rm have "remove_segment T s a = Inl e"
    by (cases "t_remove T (comparator_x s) (store s) a (tree s)")
       (auto simp: remove_segment_def Let_def)
  with fe nohit show ?thesis by blast
qed

lemma treeRaises_process:
  assumes "treeRaises T s ev e"
  shows "processEvent T s ev = Inl e"
proof (cases "ev_type ev = Left")
  case True
  from treeRaises_add[OF True assms] True show ?thesis
    by (simp add: processEvent_def)
next
  case False
  from treeRaises_remove[OF False assms] False show ?thesis
    by (auto simp: processEvent_def)
qed


section \<open>Properties\<close>

subsection \<open>The comparator without a sweep position\<close>

text \<open>
  C9. Whatever the two segments, comparing them while the comparator's current sweep
  position is unset raises the exception \<^verbatim>\<open>SFException("X value not set")\<close>: the
  result is an error, not a number. The status structure of the specification hands
  that exception on from an insertion, a search or a removal that has to compare. And
  the check neither swallows an exception that comes out of the tree nor turns it into
  a boolean: whatever the tree, the event queue and the point-in-ring tests, if the
  rings are valid, the events before some event are processed without an intersection,
  and at that event an operation of the tree raises \<open>e\<close>, then the result of the check
  is the exception \<open>e\<close>.
\<close>

theorem compare_unset_fatal:
  "compare None segment1 segment2 = Inl (SFException ''X value not set'')
   \<and> listInsert None h a (c # cs) = Inl (SFException ''X value not set'')
   \<and> listFindNode None h a (c # cs) = Inl (SFException ''X value not set'')
   \<and> listRemove None h a (c # cs) = Inl (SFException ''X value not set'')
   \<and> (ringLoop G rs 0 (length rs \<noteq> 0) [] = Inr (True, ringCopies)
        \<longrightarrow> Q ringCopies = evs1 @ ev # evs2
        \<longrightarrow> sweepEvents T (newSweepLine T ringCopies) evs1 = Inr (s, True)
        \<longrightarrow> treeRaises T s ev e
        \<longrightarrow> simplePolygonLineStrings T Q G rs = Inl e)"
proof (intro conjI impI)
  assume rl: "ringLoop G rs 0 (length rs \<noteq> 0) [] = Inr (True, ringCopies)"
    and q: "Q ringCopies = evs1 @ ev # evs2"
    and pre: "sweepEvents T (newSweepLine T ringCopies) evs1 = Inr (s, True)"
    and tr: "treeRaises T s ev e"
  have "sweepRun T Q ringCopies = sweepEvents T s (ev # evs2)"
    using sweepEvents_append[OF pre] q by (simp only: sweepRun_def)
  also have "\<dots> = Inl e"
    using treeRaises_process[OF tr] by (simp only: sweepEvents_step sum.case)
  finally show "simplePolygonLineStrings T Q G rs = Inl e"
    using rl by (simp add: simplePolygonLineStrings_def)
qed (simp_all add: compare_def listRemove_def)

text \<open>
  The square \<open>(0,0), (4,0), (4,4), (0,4)\<close> on the status structure of the specification
  with its comparator left unset: the first event inserts into the empty structure,
  the search that follows compares, and the comparator's exception is the result of
  the check.
\<close>

theorem compare_unset_fatal_witness:
  "ringLoop (constGeometryUtils True False) [[pt 0 0, pt 4 0, pt 4 4, pt 0 4]] 0
       (length [[pt 0 0, pt 4 0, pt 4 4, pt 0 4]] \<noteq> 0) []
     = Inr (True, [[pt 0 0, pt 4 0, pt 4 4, pt 0 4]])
   \<and> SortedEventQueue [[pt 0 0, pt 4 0, pt 4 4, pt 0 4]]
     = [] @ \<lparr> ev_edge = 0, ev_ring = 0, ev_point = pt 0 0, ev_type = Left \<rparr>
          # drop 1 (SortedEventQueue [[pt 0 0, pt 4 0, pt 4 4, pt 0 4]])
   \<and> sweepEvents (Unpositioned ListTree)
        (newSweepLine (Unpositioned ListTree) [[pt 0 0, pt 4 0, pt 4 4, pt 0 4]]) []
     = Inr (newSweepLine (Unpositioned ListTree) [[pt 0 0, pt 4 0, pt 4 4, pt 0 4]], True)
   \<and> treeRaises (Unpositioned ListTree)
        (newSweepLine (Unpositioned ListTree) [[pt 0 0, pt 4 0, pt 4 4, pt 0 4]])
        \<lparr> ev_edge = 0, ev_ring = 0, ev_point = pt 0 0, ev_type = Left \<rparr>
        (SFException ''X value not set'')
   \<and> simplePolygonLineStrings (Unpositioned ListTree) SortedEventQueue
        (constGeometryUtils True False) [[pt 0 0, pt 4 0, pt 4 4, pt 0 4]]
     = Inl (SFException ''X value not set'')"
proof -
  let ?rs = "[[pt 0 0, pt 4 0, pt 4 4, pt 0 4]]"
  let ?T = "Unpositioned ListTree"
  let ?ev = "\<lparr> ev_edge = 0, ev_ring = 0, ev_point = pt 0 0, ev_type = Left \<rparr>"
  have h1: "ringLoop (constGeometryUtils True False) ?rs 0 (length ?rs \<noteq> 0) []
              = Inr (True, ?rs)"
    by code_simp
  have h2: "SortedEventQueue ?rs = [] @ ?ev # drop 1 (SortedEventQueue ?rs)"
    by code_simp
  have h3: "sweepEvents ?T (newSweepLine ?T ?rs) [] = Inr (newSweepLine ?T ?rs, True)"
    by simp
  have h4: "treeRaises ?T (newSweepLine ?T ?rs) ?ev (SFException ''X value not set'')"
    by code_simp
  from compare_unset_fatal
         [of _ _ _ _ _ _ "constGeometryUtils True False" ?rs ?rs SortedEventQueue "[]" ?ev
             "drop 1 (SortedEventQueue ?rs)" ?T "newSweepLine ?T ?rs"
             "SFException ''X value not set''"]
       h1 h2 h3 h4
  have "simplePolygonLineStrings ?T SortedEventQueue (constGeometryUtils True False) ?rs
          = Inl (SFException ''X value not set'')"
    by blast
  with h1 h2 h3 h4 show ?thesis by blast
qed

subsection \<open>Consecutive edges\<close>

text \<open>
  C8. Two segments of the same ring whose edge indices are cyclically consecutive with
  respect to the number of points of that ring in the sweep line (the count after the
  closing point was dropped) are never reported as intersecting.
\<close>

theorem intersect_consecutive_false:
  assumes "ring s1 = ring s2"
    and "ring s1 < length rs"
    and "0 < numPoints (rs ! ring s1)"
    and "(edge s1 + 1) mod numPoints (rs ! ring s1) = edge s2
         \<or> (edge s2 + 1) mod numPoints (rs ! ring s1) = edge s1"
  shows "intersect rs (Some s1) (Some s2) = Inr False"
proof -
  from assms have "consecutive rs s1 s2 = Inr True"
    by (auto simp: consecutive_def js_mod_def Let_def)
  then show ?thesis
    by (simp add: intersect_def)
qed

text \<open>
  The bottom and the right edge of the square share the corner \<open>(4, 0)\<close>; they are
  edges 0 and 1 of a ring of four points.
\<close>

theorem intersect_consecutive_false_witness:
  "ring \<lparr> edge = 0, ring = 0, leftPoint = pt 0 0, rightPoint = pt 4 0,
          above = None, below = None \<rparr>
     = ring \<lparr> edge = 1, ring = 0, leftPoint = pt 4 0, rightPoint = pt 4 4,
              above = None, below = None \<rparr>
   \<and> (0::nat) < length [[pt 0 0, pt 4 0, pt 4 4, pt 0 4]]
   \<and> 0 < numPoints ([[pt 0 0, pt 4 0, pt 4 4, pt 0 4]] ! 0)
   \<and> (0 + 1) mod numPoints ([[pt 0 0, pt 4 0, pt 4 4, pt 0 4]] ! 0) = (1::nat)
   \<and> intersect [[pt 0 0, pt 4 0, pt 4 4, pt 0 4]]
        (Some \<lparr> edge = 0, ring = 0, leftPoint = pt 0 0, rightPoint = pt 4 0,
                 above = None, below = None \<rparr>)
        (Some \<lparr> edge = 1, ring = 0, leftPoint = pt 4 0, rightPoint = pt 4 4,
                 above = None, below = None \<rparr>) = Inr False"
  using intersect_consecutive_false
    [of "\<lparr> edge = 0, ring = 0, leftPoint = pt 0 0, rightPoint = pt 4 0,
           above = None, below = None \<rparr>"
        "\<lparr> edge = 1, ring = 0, leftPoint = pt 4 0, rightPoint = pt 4 4,
           above = None, below = None \<rparr>"
        "[[pt 0 0, pt 4 0, pt 4 4, pt 0 4]]"]
  by (simp add: numPoints_def)

subsection \<open>The empty ring list\<close>

text \<open>
  C10. For the empty list of rings the check returns false: no rings is reported as not
  simple, and nothing is raised.
\<close>

theorem simple_empty_false:
  "simplePolygonLineStrings T Q G [] = Inr False"
  by (simp add: simplePolygonLineStrings_def ringLoop_done)

subsection \<open>The bowtie and the square\<close>

text \<open>
  C1. For the single ring \<open>(0,0), (4,4), (4,0), (0,4), (0,0)\<close>, the self-intersecting
  bowtie, the check returns false. The status structure and the event queue are the
  ones of the specification; the point-in-ring tests may be any.
\<close>

theorem bowtie_not_simple:
  "simplePolygonRingPoints ListTree SortedEventQueue G
     [[pt 0 0, pt 4 4, pt 4 0, pt 0 4, pt 0 0]] = Inr False"
  by code_simp

text \<open>
  C2. For the single ring \<open>(0,0), (4,0), (4,4), (0,4), (0,0)\<close>, the axis-aligned square
  with its two vertical edges, the check returns true. On a vertical edge the slope is
  \<open>+Infinity\<close> and the value at the sweep position is \<open>NaN\<close>, so the comparator orders
  such an edge by ring and edge index.
\<close>

theorem square_simple:
  "simplePolygonRingPoints ListTree SortedEventQueue G
     [[pt 0 0, pt 4 0, pt 4 4, pt 0 4, pt 0 0]] = Inr True"
  by code_simp

subsection \<open>Rings with too few points\<close>

text \<open>
  C5. Whatever the list of rings, if some ring has fewer than three points left after a
  duplicate closing point was dropped, the check returns false and raises nothing. This
  holds for every status structure, event queue and point-in-ring test, since the sweep
  is not reached. In particular the ring of the two points \<open>(0,0), (1,1)\<close> gives false.
\<close>

theorem too_few_points_false:
  assumes "i < length rs"
    and "length (ringCopyPoints (rs ! i)) < 3"
  shows "simplePolygonLineStrings T Q G rs = Inr False"
  using assms by (intro simple_rejected[of i]) (simp_all add: ringRejected_def)

theorem too_few_points_false_witness:
  "(0::nat) < length [[pt 0 0, pt 1 1]]
   \<and> length (ringCopyPoints ([[pt 0 0, pt 1 1]] ! 0)) < 3
   \<and> simplePolygonLineStrings ListTree SortedEventQueue (constGeometryUtils True False)
        [[pt 0 0, pt 1 1]] = Inr False"
proof -
  have h1: "(0::nat) < length [[pt 0 0, pt 1 1]]" by simp
  have h2: "length (ringCopyPoints ([[pt 0 0, pt 1 1]] ! 0)) < 3"
    by (simp add: ringCopyPoints_def)
  from too_few_points_false[OF h1 h2] h1 h2 show ?thesis by blast
qed

subsection \<open>A hole that starts outside the exterior ring\<close>

text \<open>
  C6. If the list of rings has a hole, a ring at an index \<open>i > 0\<close>, whose first point
  (the closing point dropped, which leaves the first point as it is) the point-in-ring
  test does not place inside ring \<open>0\<close>, then the check returns false. Nothing is assumed
  about the shape of the hole or of any other ring.
\<close>

theorem hole_outside_false:
  assumes "0 < i"
    and "i < length rs"
    and "rs ! i \<noteq> []"
    and "\<not> pointInPolygonRing G (ringCopyPoints (rs ! i) ! 0) (rs ! 0)"
  shows "simplePolygonLineStrings T Q G rs = Inr False"
  using assms by (intro simple_rejected[of i]) (simp_all add: ringRejected_def)

text \<open>
  The exterior \<open>(0,0), (1,0), (1,1), (0,1)\<close> with the hole \<open>(5,5), (6,5), (6,6)\<close>, for a
  test that answers that the point \<open>(5,5)\<close> is not in the exterior.
\<close>

theorem hole_outside_false_witness:
  "(0::nat) < 1
   \<and> 1 < length [[pt 0 0, pt 1 0, pt 1 1, pt 0 1], [pt 5 5, pt 6 5, pt 6 6]]
   \<and> [[pt 0 0, pt 1 0, pt 1 1, pt 0 1], [pt 5 5, pt 6 5, pt 6 6]] ! 1 \<noteq> []
   \<and> \<not> pointInPolygonRing (constGeometryUtils False False)
          (ringCopyPoints ([[pt 0 0, pt 1 0, pt 1 1, pt 0 1], [pt 5 5, pt 6 5, pt 6 6]] ! 1) ! 0)
          ([[pt 0 0, pt 1 0, pt 1 1, pt 0 1], [pt 5 5, pt 6 5, pt 6 6]] ! 0)
   \<and> simplePolygonLineStrings ListTree SortedEventQueue (constGeometryUtils False False)
        [[pt 0 0, pt 1 0, pt 1 1, pt 0 1], [pt 5 5, pt 6 5, pt 6 6]] = Inr False"
proof -
  have h1: "(0::nat) < 1" by simp
  have h2: "1 < length [[pt 0 0, pt 1 0, pt 1 1, pt 0 1], [pt 5 5, pt 6 5, pt 6 6]]"
    by simp
  have h3: "[[pt 0 0, pt 1 0, pt 1 1, pt 0 1], [pt 5 5, pt 6 5, pt 6 6]] ! 1 \<noteq> []"
    by simp
  have h4: "\<not> pointInPolygonRing (constGeometryUtils False False)
          (ringCopyPoints ([[pt 0 0, pt 1 0, pt 1 1, pt 0 1], [pt 5 5, pt 6 5, pt 6 6]] ! 1) ! 0)
          ([[pt 0 0, pt 1 0, pt 1 1, pt 0 1], [pt 5 5, pt 6 5, pt 6 6]] ! 0)"
    by (simp add: constGeometryUtils_def)
  from hole_outside_false[OF h1 h2 h3 h4] h1 h2 h3 h4 show ?thesis by blast
qed

subsection \<open>Appending the closing point\<close>

text \<open>
  C7, as the code has it. The check drops one closing point, and only from a ring of at
  least three points. So for a ring \<open>R\<close> that is not empty, whose first point has
  coordinates equal to themselves (none is \<open>NaN\<close>), and which has at most two points or
  a last point different from its first, the check on \<open>[R]\<close> and the check on \<open>[R]\<close>
  with the first point of \<open>R\<close> appended give the same result: the same boolean or the
  same exception. This holds for every status structure, event queue and point-in-ring
  test.
\<close>

theorem closing_point_appended:
  assumes "R \<noteq> []"
    and "sameXY (hd R) (hd R)"
    and "length R \<le> 2 \<or> \<not> sameXY (hd R) (last R)"
  shows "simplePolygonLineStrings T Q G [R] = simplePolygonLineStrings T Q G [R @ [hd R]]"
proof (cases "2 \<le> length R")
  case True
  with assms have "ringCopyPoints R = R" and "ringCopyPoints (R @ [hd R]) = R"
    by (auto simp: ringCopyPoints_open ringCopyPoints_closed)
  then show ?thesis by (simp add: simple_single)
next
  case False
  moreover from assms(1) have "length R \<noteq> 0" by simp
  ultimately have "length R = 1" by arith
  then have "length (ringCopyPoints R) < 3" and "length (ringCopyPoints (R @ [hd R])) < 3"
    by (simp_all add: ringCopyPoints_def)
  then show ?thesis by (simp add: simple_single)
qed

text \<open>The open square, and the same square with its first point appended.\<close>

theorem closing_point_appended_witness:
  "[pt 0 0, pt 4 0, pt 4 4, pt 0 4] \<noteq> []
   \<and> sameXY (hd [pt 0 0, pt 4 0, pt 4 4, pt 0 4]) (hd [pt 0 0, pt 4 0, pt 4 4, pt 0 4])
   \<and> \<not> sameXY (hd [pt 0 0, pt 4 0, pt 4 4, pt 0 4]) (last [pt 0 0, pt 4 0, pt 4 4, pt 0 4])
   \<and> simplePolygonLineStrings ListTree SortedEventQueue (constGeometryUtils True False)
        [[pt 0 0, pt 4 0, pt 4 4, pt 0 4]]
     = simplePolygonLineStrings ListTree SortedEventQueue (constGeometryUtils True False)
        [[pt 0 0, pt 4 0, pt 4 4, pt 0 4] @ [hd [pt 0 0, pt 4 0, pt 4 4, pt 0 4]]]"
proof -
  have h1: "[pt 0 0, pt 4 0, pt 4 4, pt 0 4] \<noteq> []" by simp
  have h2: "sameXY (hd [pt 0 0, pt 4 0, pt 4 4, pt 0 4]) (hd [pt 0 0, pt 4 0, pt 4 4, pt 0 4])"
    by (simp add: sameXY_def pt_def)
  have h3: "\<not> sameXY (hd [pt 0 0, pt 4 0, pt 4 4, pt 0 4]) (last [pt 0 0, pt 4 0, pt 4 4, pt 0 4])"
    by (simp add: sameXY_def pt_def)
  from h3 have h3': "length [pt 0 0, pt 4 0, pt 4 4, pt 0 4] \<le> 2
      \<or> \<not> sameXY (hd [pt 0 0, pt 4 0, pt 4 4, pt 0 4]) (last [pt 0 0, pt 4 0, pt 4 4, pt 0 4])"
    by (rule disjI2)
  from closing_point_appended[OF h1 h2 h3'] h1 h2 h3 show ?thesis by blast
qed

text \<open>
  C7 as it is stated, for every ring, fails on a ring that already ends with its first
  point. The ring \<open>(0,0), (1,1), (0,0)\<close> is cut to two points and rejected; with another
  \<open>(0,0)\<close> appended only that one is dropped, three points are swept, all their edges
  are consecutive, and the check returns true.
\<close>

theorem closing_point_appended_counterexample:
  "simplePolygonLineStrings ListTree SortedEventQueue (constGeometryUtils True False)
     [[pt 0 0, pt 1 1, pt 0 0]] = Inr False
   \<and> simplePolygonLineStrings ListTree SortedEventQueue (constGeometryUtils True False)
     [[pt 0 0, pt 1 1, pt 0 0] @ [hd [pt 0 0, pt 1 1, pt 0 0]]] = Inr True"
  by code_simp

subsection \<open>Removal from the sweep line\<close>

text \<open>
  C3 asks that after \<^verbatim>\<open>SweepLine.remove\<close> the neighbours of the removed segment refer
  to each other and that the segment's entry in the map of segments is gone. The code
  does not do that. \<^verbatim>\<open>remove\<close> asks the tree to remove the segment and, when the tree
  reports that it did, asks once more; the second answer, that the segment is absent,
  is the one that guards the update of the neighbours and of the map.

  Here the sweep line has taken the first three events of the square
  \<open>(0,0), (4,0), (4,4), (0,4)\<close>, all of them \<open>Left\<close>: the status structure holds, from
  below to above, the segments at the addresses 0 (edge 0), 2 (edge 2) and 1 (edge 3).
  The next event is the \<open>Right\<close> event of edge 3. Its segment has no neighbour above and
  the segment at address 2 below. After \<^verbatim>\<open>remove\<close> the segment has left the tree, yet
  no segment has changed, so the segment at address 2 still has the removed segment
  above it, and \<^verbatim>\<open>find\<close> still returns the removed segment for edge 3.
\<close>

theorem remove_keeps_links_and_entry:
  "case sweepEvents ListTree (newSweepLine ListTree [[pt 0 0, pt 4 0, pt 4 4, pt 0 4]])
          (take 3 (SortedEventQueue [[pt 0 0, pt 4 0, pt 4 4, pt 0 4]])) of
     Inl e \<Rightarrow> False
   | Inr (s, simple) \<Rightarrow>
       (case remove_segment ListTree s 1 of
          Inl e \<Rightarrow> False
        | Inr s' \<Rightarrow>
            simple \<and> tree s = [0, 2, 1] \<and> tree s' = [0, 2]
            \<and> SortedEventQueue [[pt 0 0, pt 4 0, pt 4 4, pt 0 4]] ! 3
                = \<lparr> ev_edge = 3, ev_ring = 0, ev_point = pt 0 4, ev_type = Right \<rparr>
            \<and> find_event s \<lparr> ev_edge = 3, ev_ring = 0, ev_point = pt 0 4, ev_type = Right \<rparr>
                = Inr 1
            \<and> above (store s ! 1) = None \<and> below (store s ! 1) = Some 2
            \<and> store s' = store s
            \<and> above (store s' ! 2) = Some 1
            \<and> find_event s' \<lparr> ev_edge = 3, ev_ring = 0, ev_point = pt 0 4, ev_type = Right \<rparr>
                = Inr 1)"
  by code_simp

subsection \<open>The comparator's position at each insertion and removal\<close>

text \<open>
  C4, as the code has it. For every status structure, with its insertions and removals
  recorded:
  \<^item> \<^verbatim>\<open>add\<close> makes one insertion, with the comparator at the \<open>x\<close> of the event's point;
  \<^item> \<^verbatim>\<open>remove\<close> makes its first removal attempt with the comparator where the
    operation before left it, and a second attempt, if it makes one, with the
    comparator at the \<open>x\<close> of the segment's left point;
  \<^item> in a run of the events from the new sweep line no insertion and no removal
    attempt sees the comparator unset.
\<close>

theorem tree_calls_comparator_x:
  "(add (Logged T) s ev = Inr (s1, a) \<longrightarrow>
      calls s1 = calls s @ [(InsertCall, Some (x (ev_point ev)), a)])
   \<and> (remove_segment (Logged T) u a' = Inr u' \<longrightarrow>
      calls u' = calls u @ [(RemoveCall, comparator_x u, a')]
      \<or> calls u' = calls u @ [(RemoveCall, comparator_x u, a'),
                               (RemoveCall, Some (x (leftPoint (store u ! a'))), a')])
   \<and> (sweepEvents (Logged T) (newSweepLine (Logged T) rs) evs = Inr (s3, b) \<longrightarrow>
      (\<forall>c \<in> set (calls s3). fst (snd c) \<noteq> None))"
proof (intro conjI impI)
  assume "add (Logged T) s ev = Inr (s1, a)"
  from add_logged[OF this]
  show "calls s1 = calls s @ [(InsertCall, Some (x (ev_point ev)), a)]" by simp
next
  assume "remove_segment (Logged T) u a' = Inr u'"
  from remove_logged[OF this]
  show "calls u' = calls u @ [(RemoveCall, comparator_x u, a')]
        \<or> calls u' = calls u @ [(RemoveCall, comparator_x u, a'),
                                 (RemoveCall, Some (x (leftPoint (store u ! a'))), a')]"
    by blast
next
  assume run: "sweepEvents (Logged T) (newSweepLine (Logged T) rs) evs = Inr (s3, b)"
  show "\<forall>c \<in> set (calls s3). fst (snd c) \<noteq> None"
    by (rule sweep_logged_x_set[OF run]) (simp_all add: newSweepLine_def calls_def)
qed

text \<open>
  The three parts on the square \<open>(0,0), (4,0), (4,4), (0,4)\<close> with the status structure
  and the event queue of the specification: the first event added to the new sweep
  line, the segment it made removed again, and the whole run.
\<close>

theorem tree_calls_comparator_x_witness:
  "(\<exists>s1 s2.
      add (Logged ListTree) (newSweepLine (Logged ListTree) [[pt 0 0, pt 4 0, pt 4 4, pt 0 4]])
        (SortedEventQueue [[pt 0 0, pt 4 0, pt 4 4, pt 0 4]] ! 0) = Inr (s1, 0)
      \<and> calls s1 = [(InsertCall, Some (Fin 0), 0)]
      \<and> remove_segment (Logged ListTree) s1 0 = Inr s2
      \<and> calls s2 = [(InsertCall, Some (Fin 0), 0), (RemoveCall, Some (Fin 0), 0),
                     (RemoveCall, Some (Fin 0), 0)])
   \<and> (\<exists>s3.
      sweepEvents (Logged ListTree)
        (newSweepLine (Logged ListTree) [[pt 0 0, pt 4 0, pt 4 4, pt 0 4]])
        (SortedEventQueue [[pt 0 0, pt 4 0, pt 4 4, pt 0 4]]) = Inr (s3, True)
      \<and> list_all (\<lambda>c. fst (snd c) \<noteq> None) (calls s3))"
proof -
  let ?rs = "[[pt 0 0, pt 4 0, pt 4 4, pt 0 4]]"
  let ?s0 = "newSweepLine (Logged ListTree) ?rs"
  have ev: "case add (Logged ListTree) ?s0 (SortedEventQueue ?rs ! 0) of
              Inl e \<Rightarrow> False
            | Inr (s1, a) \<Rightarrow>
                a = 0 \<and> calls s1 = [(InsertCall, Some (Fin 0), 0)]
                \<and> (case remove_segment (Logged ListTree) s1 0 of
                      Inl e \<Rightarrow> False
                    | Inr s2 \<Rightarrow>
                        calls s2 = [(InsertCall, Some (Fin 0), 0), (RemoveCall, Some (Fin 0), 0),
                                    (RemoveCall, Some (Fin 0), 0)])"
    by code_simp
  then obtain s1 s2 where
    ad: "add (Logged ListTree) ?s0 (SortedEventQueue ?rs ! 0) = Inr (s1, 0)"
    and c1: "calls s1 = [(InsertCall, Some (Fin 0), 0)]"
    and rm: "remove_segment (Logged ListTree) s1 0 = Inr s2"
    and c2: "calls s2 = [(InsertCall, Some (Fin 0), 0), (RemoveCall, Some (Fin 0), 0),
                         (RemoveCall, Some (Fin 0), 0)]"
    by (auto split: sum.splits prod.splits)
  have "case sweepEvents (Logged ListTree) ?s0 (SortedEventQueue ?rs) of
          Inl e \<Rightarrow> False | Inr (s3, b) \<Rightarrow> b"
    by code_simp
  then obtain s3 where
    run: "sweepEvents (Logged ListTree) ?s0 (SortedEventQueue ?rs) = Inr (s3, True)"
    by (auto split: sum.splits prod.splits)
  from tree_calls_comparator_x
         [of ListTree ?s0 "SortedEventQueue ?rs ! 0" s1 0 s1 0 s2 ?rs "SortedEventQueue ?rs" s3 True]
       ad rm run
  have "\<forall>c \<in> set (calls s3). fst (snd c) \<noteq> None" by blast
  then have "list_all (\<lambda>c. fst (snd c) \<noteq> None) (calls s3)"
    by (simp add: list_all_iff)
  with ad c1 rm c2 run show ?thesis by blast
qed

text \<open>
  C4 as it is stated, every removal attempt with the comparator at the \<open>x\<close> of the
  segment's left point, fails on the square. Its last event is the \<open>Right\<close> event of
  edge 2, whose segment is at address 2 and has its left point at \<open>x = 0\<close>; the first
  attempt to remove it, the eleventh recorded call of the run, is made with the
  comparator at \<open>4\<close>, where the removal of edge 1 left it.
\<close>

theorem tree_calls_comparator_x_counterexample:
  "\<not> isl (sweepRun (Logged ListTree) SortedEventQueue [[pt 0 0, pt 4 0, pt 4 4, pt 0 4]])
   \<and> calls (fst (projr (sweepRun (Logged ListTree) SortedEventQueue
                           [[pt 0 0, pt 4 0, pt 4 4, pt 0 4]]))) ! 10
       = (RemoveCall, Some (Fin 4), 2)
   \<and> edge (store (fst (projr (sweepRun (Logged ListTree) SortedEventQueue
                                 [[pt 0 0, pt 4 0, pt 4 4, pt 0 4]]))) ! 2) = 2
   \<and> x (leftPoint (store (fst (projr (sweepRun (Logged ListTree) SortedEventQueue
                                          [[pt 0 0, pt 4 0, pt 4 4, pt 0 4]]))) ! 2))
       = Fin 0"
  by code_simp

end
